theory Spec2Isabelle
  imports Complex_Main
begin

section \<open>Date windows (\<open>minMaxDates\<close>, functions.ts)\<close>

text \<open>
  The dates reach the code as \<^verbatim>\<open>string | number\<close>. A number is a double: a finite one
  (held exactly, as a rational), \<open>NaN\<close> or one of the infinities.
\<close>

datatype number = Fin rat | NaN | PosInfinity | NegInfinity

datatype datum = Num number | Str string

text \<open>
  A moment is a valid instant, with its milliseconds since the epoch, or an invalid
  one. \<open>moment(n)\<close> of a number is \<open>new Date(n)\<close>: invalid when \<open>n\<close> is not finite or
  beyond 8.64e15 in size, else the instant of \<open>n\<close> cut to a whole number.
\<close>

datatype moment = Instant int | Invalid

definition trunc :: "rat \<Rightarrow> int" where
  "trunc q = (if 0 \<le> q then \<lfloor>q\<rfloor> else \<lceil>q\<rceil>)"

definition timeClip :: "number \<Rightarrow> moment" where
  "timeClip n =
     (case n of
        Fin q \<Rightarrow> if \<bar>q\<bar> \<le> 8640000000000000 then Instant (trunc q) else Invalid
      | _ \<Rightarrow> Invalid)"

text \<open>
  The package \<open>moment\<close> is not part of the repository. Two of its operations are
  taken as they come: how it reads a text as a date (\<open>parseStr\<close>), and
  \<^verbatim>\<open>moment().subtract(n, unit)\<close>, the present moment moved back by \<open>n\<close> units
  (\<open>ago\<close>). Every statement below holds whatever these two do. The two bounds of
  a window are parsed one right after the other, against one reading of the clock.
\<close>

datatype time_unit = Minute | Second | Day | Hour | Month | Year | Week

record momentLib =
  ago :: "nat \<Rightarrow> time_unit \<Rightarrow> moment"
  parseStr :: "string \<Rightarrow> moment"

definition moment_of :: "momentLib \<Rightarrow> datum \<Rightarrow> moment" where
  "moment_of L v = (case v of Num n \<Rightarrow> timeClip n | Str s \<Rightarrow> parseStr L s)"

text \<open>
  \<open>a.diff(b)\<close> is \<open>a - b\<close> in milliseconds, and \<open>NaN\<close> (here \<open>None\<close>) when one of the
  two is invalid. Every comparison with \<open>NaN\<close> is false.
\<close>

definition diff :: "moment \<Rightarrow> moment \<Rightarrow> int option" where
  "diff a b = (case (a, b) of (Instant x, Instant y) \<Rightarrow> Some (x - y) | _ \<Rightarrow> None)"

definition lt0 :: "int option \<Rightarrow> bool" where
  "lt0 d = (case d of Some n \<Rightarrow> n < 0 | None \<Rightarrow> False)"

definition le0 :: "int option \<Rightarrow> bool" where
  "le0 d = (case d of Some n \<Rightarrow> n \<le> 0 | None \<Rightarrow> False)"

definition ge0 :: "int option \<Rightarrow> bool" where
  "ge0 d = (case d of Some n \<Rightarrow> n \<ge> 0 | None \<Rightarrow> False)"

definition gt0 :: "int option \<Rightarrow> bool" where
  "gt0 d = (case d of Some n \<Rightarrow> n > 0 | None \<Rightarrow> False)"

text \<open>
  The pattern of \<open>parseTimeUnit\<close>,
  \<^verbatim>\<open>/^(\d+) (minute|second|day|hour|month|year|week)s?$/i\<close>: digits, one space, the
  name of a unit in either case, with or without a final \<open>s\<close>. It returns the two
  groups, the digits and the unit.
\<close>

definition is_digit :: "char \<Rightarrow> bool" where
  "is_digit c = (c \<in> set ''0123456789'')"

definition lower :: "char \<Rightarrow> char" where
  "lower c =
     (case map_of (zip ''ABCDEFGHIJKLMNOPQRSTUVWXYZ'' ''abcdefghijklmnopqrstuvwxyz'') c of
        Some l \<Rightarrow> l | None \<Rightarrow> c)"

definition units :: "(string \<times> time_unit) list" where
  "units = [(''minute'', Minute), (''second'', Second), (''day'', Day), (''hour'', Hour),
            (''month'', Month), (''year'', Year), (''week'', Week)]"

definition timeUnitPattern :: "string \<Rightarrow> (string \<times> time_unit) option" where
  "timeUnitPattern s =
     (let number = takeWhile is_digit s; rest = dropWhile is_digit s
      in if number = [] then None
         else (case rest of
                 [] \<Rightarrow> None
               | c # word \<Rightarrow>
                   if c \<noteq> CHR '' '' then None
                   else (case find (\<lambda>(name, u). map lower word = name \<or> map lower word = name @ ''s'')
                                units of
                           Some (name, u) \<Rightarrow> Some (number, u)
                         | None \<Rightarrow> None)))"

text \<open>\<open>+number\<close> for a text of digits.\<close>

definition to_number :: "string \<Rightarrow> nat" where
  "to_number ds = foldl (\<lambda>a c. 10 * a + (of_char c - 48)) 0 ds"

text \<open>\<open>!value\<close> is true of \<open>0\<close>, of \<open>NaN\<close> and of the empty text.\<close>

definition truthy_value :: "datum \<Rightarrow> bool" where
  "truthy_value v = (case v of Num n \<Rightarrow> n \<noteq> Fin 0 \<and> n \<noteq> NaN | Str s \<Rightarrow> s \<noteq> [])"

text \<open>
  \<open>parseTimeUnit\<close>. An argument that is \<open>undefined\<close> (\<open>None\<close>) or falsy gives \<open>null\<close>.
  A text that matches the pattern with a number other than 0 is that long ago; anything
  else is handed to \<open>moment(value)\<close>. The text of a number holds no space, so the pattern
  never matches it.
\<close>

definition parseTimeUnit :: "momentLib \<Rightarrow> datum option \<Rightarrow> moment option" where
  "parseTimeUnit L v =
     (case v of
        None \<Rightarrow> None
      | Some x \<Rightarrow>
          if \<not> truthy_value x then None
          else (case x of
                  Num n \<Rightarrow> Some (moment_of L x)
                | Str s \<Rightarrow>
                    (case timeUnitPattern s of
                       Some (number, u) \<Rightarrow>
                         if to_number number \<noteq> 0 then Some (ago L (to_number number) u)
                         else Some (moment_of L x)
                     | None \<Rightarrow> Some (moment_of L x))))"

datatype error = MinimumAfterMaximum moment moment

record minMax =
  minDate :: "moment option"
  maxDate :: "moment option"

text \<open>
  \<^verbatim>\<open>const minDate = parseTimeUnit(min); const maxDate = parseTimeUnit(max);
  if (minDate && maxDate && maxDate.diff(minDate) < 0) throw new Error(...)\<close>,
  otherwise the object holding both bounds is returned. A moment is an object, so a
  bound is truthy as soon as it is not \<open>null\<close>, valid or not.
\<close>

definition minMaxDates :: "momentLib \<Rightarrow> datum option \<Rightarrow> datum option \<Rightarrow> error + minMax" where
  "minMaxDates L mn mx =
     (let minDate = parseTimeUnit L mn; maxDate = parseTimeUnit L mx
      in case (minDate, maxDate) of
           (Some lo, Some hi) \<Rightarrow>
             if lt0 (diff hi lo) then Inl (MinimumAfterMaximum lo hi)
             else Inr \<lparr>minDate = minDate, maxDate = maxDate\<rparr>
         | _ \<Rightarrow> Inr \<lparr>minDate = minDate, maxDate = maxDate\<rparr>)"

text \<open>
  \<^verbatim>\<open>const base = moment(time);
  return (minDate ? minDate.diff(base) <= 0 : true) && (maxDate ? maxDate.diff(base) >= 0 : true)\<close>
\<close>

definition compare :: "momentLib \<Rightarrow> minMax \<Rightarrow> datum \<Rightarrow> bool" where
  "compare L w time =
     (let base = moment_of L time in
        (case minDate w of Some m \<Rightarrow> le0 (diff m base) | None \<Rightarrow> True) \<and>
        (case maxDate w of Some m \<Rightarrow> ge0 (diff m base) | None \<Rightarrow> True))"

text \<open>
  An instance of the package for the examples: the clock stands at 1600000000000, a
  month counts 30 days and a year 365, and no text is read as a date.
\<close>

definition unit_millis :: "time_unit \<Rightarrow> int" where
  "unit_millis u =
     (case u of Second \<Rightarrow> 1000 | Minute \<Rightarrow> 60000 | Hour \<Rightarrow> 3600000 | Day \<Rightarrow> 86400000
      | Week \<Rightarrow> 604800000 | Month \<Rightarrow> 2592000000 | Year \<Rightarrow> 31536000000)"

definition still_clock :: momentLib where
  "still_clock = \<lparr>ago = (\<lambda>n u. Instant (1600000000000 - int n * unit_millis u)),
                  parseStr = (\<lambda>s. Invalid)\<rparr>"


section \<open>The item counter (\<open>dateRangeItemCounter\<close>, functions.ts)\<close>

text \<open>
  The closure holds five numbers, all starting at 0. They hold counts, so they are
  integers here, and the two ratios of \<open>isOver\<close> are compared exactly, as rationals.
  The fields \<open>total\<close> and \<open>empty\<close> of the source carry a suffix, since HOL has
  constants of those names.
\<close>

record counter =
  total_cnt :: int
  older :: int
  newer :: int
  outOfRange :: int
  empty_cnt :: int

definition dateRangeItemCounter :: "minMax \<Rightarrow> counter" where
  "dateRangeItemCounter w =
     \<lparr>total_cnt = 0, older = 0, newer = 0, outOfRange = 0, empty_cnt = 0\<rparr>"

definition stats :: "counter \<Rightarrow> counter" where
  "stats c = \<lparr>total_cnt = total_cnt c, older = older c, newer = newer c,
              outOfRange = outOfRange c, empty_cnt = empty_cnt c\<rparr>"

text \<open>\<^verbatim>\<open>empty(predicate) { if (!predicate) empty++ }\<close>\<close>

definition empty_m :: "bool \<Rightarrow> counter \<Rightarrow> counter" where
  "empty_m predicate c = (if \<not> predicate then c\<lparr>empty_cnt := empty_cnt c + 1\<rparr> else c)"

text \<open>\<^verbatim>\<open>add(value) { total += value }\<close>\<close>

definition add :: "int \<Rightarrow> counter \<Rightarrow> counter" where
  "add v c = c\<lparr>total_cnt := total_cnt c + v\<rparr>"

text \<open>
  \<open>time\<close>: three independent tests, each bumping one counter, then the result of
  \<open>compare\<close>. \<^verbatim>\<open>(minMax.maxDate?.diff(value) ?? 0) > 0\<close> is \<open>0 > 0\<close> when the
  bound is missing and \<open>NaN > 0\<close> when the bound or the value is invalid.
\<close>

definition time :: "momentLib \<Rightarrow> minMax \<Rightarrow> datum \<Rightarrow> counter \<Rightarrow> bool \<times> counter" where
  "time L w v c =
     (let c1 = (if \<not> compare L w v then c\<lparr>outOfRange := outOfRange c + 1\<rparr> else c);
          c2 = (if gt0 (case maxDate w of Some m \<Rightarrow> diff m (moment_of L v) | None \<Rightarrow> Some 0)
                then c1\<lparr>older := older c1 + 1\<rparr> else c1);
          c3 = (if gt0 (case minDate w of Some m \<Rightarrow> diff m (moment_of L v) | None \<Rightarrow> Some 0)
                then c2\<lparr>newer := newer c2 + 1\<rparr> else c2)
      in (compare L w v, c3))"

text \<open>
  \<open>truthy n\<close> is the test JavaScript makes of a number used as a condition.
  \<^verbatim>\<open>(outOfRange > 0 && (older && total ? older / total > 0.7 : false))
     || (empty && total ? empty / total > 0.2 : false)\<close>
\<close>

definition truthy :: "int \<Rightarrow> bool" where
  "truthy n = (n \<noteq> 0)"

definition ratio :: "int \<Rightarrow> int \<Rightarrow> rat" where
  "ratio a b = of_int a / of_int b"

definition isOver :: "counter \<Rightarrow> bool" where
  "isOver c =
     ((outOfRange c > 0 \<and>
        (if truthy (older c) \<and> truthy (total_cnt c)
         then ratio (older c) (total_cnt c) > 7 / 10 else False))
      \<or> (if truthy (empty_cnt c) \<and> truthy (total_cnt c)
          then ratio (empty_cnt c) (total_cnt c) > 2 / 10 else False))"

text \<open>
  The methods of the returned object as one interface: a call, the value it returns and
  the state it leaves. A counter state is reachable when a list of calls leads to it from
  the fresh counter.
\<close>

datatype call = Stats | Empty bool | Add int | Time datum | IsOver

datatype reply = Void | Flag bool | Counts counter

fun invoke :: "momentLib \<Rightarrow> minMax \<Rightarrow> call \<Rightarrow> counter \<Rightarrow> reply \<times> counter" where
  "invoke L w Stats c = (Counts (stats c), c)"
| "invoke L w (Empty p) c = (Void, empty_m p c)"
| "invoke L w (Add v) c = (Void, add v c)"
| "invoke L w (Time t) c = (case time L w t c of (b, c') \<Rightarrow> (Flag b, c'))"
| "invoke L w IsOver c = (Flag (isOver c), c)"

fun invoke_all :: "momentLib \<Rightarrow> minMax \<Rightarrow> call list \<Rightarrow> counter \<Rightarrow> counter" where
  "invoke_all L w [] c = c"
| "invoke_all L w (k # ks) c = invoke_all L w ks (snd (invoke L w k c))"

fun recording :: "call \<Rightarrow> bool" where
  "recording Stats = False"
| "recording IsOver = False"
| "recording _ = True"


section \<open>A promise settled from outside (\<open>deferred\<close>, functions.ts)\<close>

text \<open>
  The object closes over the flag \<open>resolved\<close> and the promise. Of the promise only its
  fate matters: it is open until the first call of one of its two resolving functions
  \<open>r1\<close>, \<open>r2\<close>, which fixes it for good (a JavaScript promise ignores every later
  call of either). \<open>ResolvedWith a\<close> is the fate after \<open>r1(a)\<close>, whether \<open>a\<close> is a
  plain value or a thenable to follow; \<open>RejectedWith e\<close> the fate after \<open>r2(e)\<close>.
\<close>

datatype ('a, 'e) fate = Pending | ResolvedWith 'a | RejectedWith 'e

definition r1 :: "'a \<Rightarrow> ('a, 'e) fate \<Rightarrow> ('a, 'e) fate" where
  "r1 arg p = (case p of Pending \<Rightarrow> ResolvedWith arg | _ \<Rightarrow> p)"

definition r2 :: "'e \<Rightarrow> ('a, 'e) fate \<Rightarrow> ('a, 'e) fate" where
  "r2 arg p = (case p of Pending \<Rightarrow> RejectedWith arg | _ \<Rightarrow> p)"

record ('a, 'e) deferred_obj =
  promise :: "('a, 'e) fate"
  resolved :: bool

definition deferred :: "('a, 'e) deferred_obj" where
  "deferred = \<lparr>promise = Pending, resolved = False\<rparr>"

text \<open>\<^verbatim>\<open>resolve = (arg) => { resolved = true; r1(arg); }\<close>\<close>

definition resolve :: "'a \<Rightarrow> ('a, 'e) deferred_obj \<Rightarrow> ('a, 'e) deferred_obj" where
  "resolve arg d = (let d1 = d\<lparr>resolved := True\<rparr> in d1\<lparr>promise := r1 arg (promise d1)\<rparr>)"

text \<open>\<^verbatim>\<open>reject = (arg) => { resolved = true; r2(arg); }\<close>\<close>

definition reject :: "'e \<Rightarrow> ('a, 'e) deferred_obj \<Rightarrow> ('a, 'e) deferred_obj" where
  "reject arg d = (let d1 = d\<lparr>resolved := True\<rparr> in d1\<lparr>promise := r2 arg (promise d1)\<rparr>)"

text \<open>The calls made on one object, in order.\<close>

datatype ('a, 'e) settlement = Resolve 'a | Reject 'e

fun settle :: "('a, 'e) settlement \<Rightarrow> ('a, 'e) deferred_obj \<Rightarrow> ('a, 'e) deferred_obj" where
  "settle (Resolve a) d = resolve a d"
| "settle (Reject e) d = reject e d"

fun settle_all :: "('a, 'e) settlement list \<Rightarrow> ('a, 'e) deferred_obj \<Rightarrow> ('a, 'e) deferred_obj" where
  "settle_all [] d = d"
| "settle_all (k # ks) d = settle_all ks (settle k d)"


section \<open>The scrolling loop (\<open>scrollUntil\<close>, functions.ts)\<close>

text \<open>
  A \<open>Set<number>\<close> is the list of its members in insertion order; \<open>add\<close> leaves the
  set alone when the value is already a member. A sampled number that may be
  \<open>null\<close> or \<open>undefined\<close> is an \<open>int option\<close>.
\<close>

definition set_add :: "int \<Rightarrow> int list \<Rightarrow> int list" where
  "set_add v h = (if v \<in> set h then h else h @ [v])"

text \<open>
  \<^verbatim>\<open>if (num === undefined || num === null) return false;
  return [...histogram].every(val => (num !== val));\<close>
\<close>

definition isChanging :: "int list \<Rightarrow> int option \<Rightarrow> bool" where
  "isChanging histogram num =
     (case num of None \<Rightarrow> False | Some n \<Rightarrow> list_all (\<lambda>val. n \<noteq> val) histogram)"

text \<open>
  The loop treats both signals with the same statements (lines 710-715 for the scroll
  position, 717-722 for the body height): test the sample against the histogram, then
  \<^verbatim>\<open>if (lastScroll) scrolls.add(lastScroll)\<close>, where \<open>null\<close> and \<open>0\<close> are
  falsy. \<open>sample\<close> returns the verdict and the histogram afterwards.
\<close>

definition sample :: "int list \<Rightarrow> int option \<Rightarrow> bool \<times> int list" where
  "sample histogram num =
     (let changed = isChanging histogram num
      in (changed, case num of
                     Some n \<Rightarrow> if truthy n then set_add n histogram else histogram
                   | None \<Rightarrow> histogram))"

text \<open>
  The argument of \<open>maybeStop\<close>, and the options of \<open>scrollUntil\<close>. The two callbacks
  act on the page and may answer differently each time, so an option only says whether
  the callback was supplied; what it answered is part of the pass (below).
\<close>

record stop_param =
  count :: nat
  scrollChanged :: bool
  bodyChanged :: bool
  scrollSize :: nat
  heightSize :: nat

record options =
  selectors :: "string list"
  maybeStop_given :: bool
  doScroll_given :: bool

text \<open>
  What the outside answers during one pass of \<^verbatim>\<open>while (true)\<close>: the value of
  \<open>doScroll()\<close>, the two samples read from the page, whether one of the selectors was
  found in the viewport, and what \<open>maybeStop\<close> resolved to. An answer is only read
  when the code asks for it. The sleeps and the logging are left out.
\<close>

record pass =
  doScroll :: bool
  lastScroll :: "int option"
  bodyHeight :: "int option"
  foundSelectors :: bool
  maybeStop :: bool

text \<open>
  The variables of the function, and a record of what was asked of the outside: how
  often the selectors were looked for, and the arguments of the calls of \<open>maybeStop\<close>.
\<close>

record loop_state =
  scrolls :: "int list"
  heights :: "int list"
  count :: nat
  selectorChecks :: nat
  stopCalls :: "stop_param list"

definition start :: loop_state where
  "start = \<lparr>scrolls = [], heights = [], count = 0, selectorChecks = 0, stopCalls = []\<rparr>"

text \<open>\<^verbatim>\<open>doScroll = () => true\<close> is the default.\<close>

definition scrolled :: "options \<Rightarrow> pass \<Rightarrow> bool" where
  "scrolled opts p = (if doScroll_given opts then doScroll p else True)"

definition shouldContinue :: "options \<Rightarrow> pass \<Rightarrow> bool \<Rightarrow> bool \<Rightarrow> loop_state \<Rightarrow> bool \<times> loop_state" where
  "shouldContinue opts p scrollCh bodyCh s =
     (let s1 = (if selectors opts \<noteq> [] then s\<lparr>selectorChecks := selectorChecks s + 1\<rparr> else s)
      in if selectors opts \<noteq> [] \<and> foundSelectors p then (False, s1)
         else if maybeStop_given opts then
           (let s2 = s1\<lparr>stopCalls := stopCalls s1 @
                         [\<lparr>stop_param.count = count s1, scrollChanged = scrollCh,
                           bodyChanged = bodyCh, scrollSize = length (scrolls s1),
                           heightSize = length (heights s1)\<rparr>]\<rparr>
            in if maybeStop p then (False, s2) else (True, s2))
         else (True, s1))"

text \<open>One pass of the loop body; the first component says whether it left by \<open>break\<close>.\<close>

definition loop_pass :: "options \<Rightarrow> pass \<Rightarrow> loop_state \<Rightarrow> bool \<times> loop_state" where
  "loop_pass opts p s =
     (if scrolled opts p then
        (let (scrollCh, sc) = sample (scrolls s) (lastScroll p);
             s1 = s\<lparr>scrolls := sc\<rparr>;
             (bodyCh, hs) = sample (heights s1) (bodyHeight p);
             s2 = s1\<lparr>heights := hs\<rparr>;
             (continue, s3) = shouldContinue opts p scrollCh bodyCh s2
         in if \<not> continue then (True, s3) else (False, s3\<lparr>count := count s3 + 1\<rparr>))
      else (False, s))"

text \<open>
  The loop has no bound of its own. It is run on the passes the outside has answered so
  far: \<open>Stopped s\<close> when it left by \<open>break\<close> with the variables \<open>s\<close>, \<open>Running s\<close>
  when all those passes are done and it is still going.
\<close>

datatype outcome = Stopped loop_state | Running loop_state

fun while_true :: "options \<Rightarrow> pass list \<Rightarrow> loop_state \<Rightarrow> outcome" where
  "while_true opts [] s = Running s"
| "while_true opts (p # ps) s =
     (case loop_pass opts p s of
        (True, s') \<Rightarrow> Stopped s'
      | (False, s') \<Rightarrow> while_true opts ps s')"

definition scrollUntil :: "options \<Rightarrow> pass list \<Rightarrow> outcome" where
  "scrollUntil opts ps = while_true opts ps start"

fun vars :: "outcome \<Rightarrow> loop_state" where
  "vars (Stopped s) = s"
| "vars (Running s) = s"


section \<open>Properties of the date window\<close>



lemma lt0_diff: "lt0 (diff a b) \<longleftrightarrow> (\<exists>x y. a = Instant x \<and> b = Instant y \<and> x < y)"
  by (cases a; cases b) (simp_all add: lt0_def diff_def)

lemma gt0_diff: "gt0 (diff a b) \<longleftrightarrow> (\<exists>x y. a = Instant x \<and> b = Instant y \<and> y < x)"
  by (cases a; cases b) (simp_all add: gt0_def diff_def)

lemma parseTimeUnit_None:
  "parseTimeUnit L v = None \<longleftrightarrow>
     v = None \<or> v = Some (Num (Fin 0)) \<or> v = Some (Num NaN) \<or> v = Some (Str [])"
  by (auto simp: parseTimeUnit_def truthy_value_def split: option.splits datum.splits prod.splits)

lemma parseTimeUnit_undefined: "parseTimeUnit L None = None"
  by (simp add: parseTimeUnit_def)

lemma parseTimeUnit_Num:
  "parseTimeUnit L (Some (Num n)) = (if n = Fin 0 \<or> n = NaN then None else Some (timeClip n))"
  by (simp add: parseTimeUnit_def truthy_value_def moment_of_def)

lemma minMaxDates_Inl:
  "(\<exists>e. minMaxDates L mn mx = Inl e) \<longleftrightarrow>
     (\<exists>lo hi. parseTimeUnit L mn = Some (Instant lo) \<and> parseTimeUnit L mx = Some (Instant hi)
        \<and> hi < lo)"
  by (auto simp: minMaxDates_def Let_def lt0_diff split: option.splits)

lemma minMaxDates_Inr:
  "minMaxDates L mn mx = Inr w \<Longrightarrow>
     minDate w = parseTimeUnit L mn \<and> maxDate w = parseTimeUnit L mx"
  by (auto simp: minMaxDates_def Let_def split: option.splits if_splits)






text \<open>
  C6, as stated, fails for a bound that \<open>moment\<close> cannot hold: with the lower bound
  8640000000000001 and the upper bound 5 both bounds are present and the lower one is the
  greater, yet nothing is thrown and a window with an invalid lower bound is returned.
\<close>

theorem minMaxDates_keeps_invalid:
  "minMaxDates still_clock (Some (Num (Fin 8640000000000001))) (Some (Num (Fin 5)))
     = Inr \<lparr>minDate = Some Invalid, maxDate = Some (Instant 5)\<rparr>"
  by (simp add: minMaxDates_def parseTimeUnit_Num timeClip_def trunc_def diff_def lt0_def)

text \<open>
  C6, amended. \<open>minMaxDates\<close> throws exactly when both bounds are present, both are
  valid moments and the lower one is strictly after the upper one. It returns a window
  when a bound is missing, when a bound is an invalid moment, or when \<open>lo \<le> hi\<close>. A
  bound is missing when it is not given or falsy: \<open>0\<close>, \<open>NaN\<close>, the empty text.
\<close>

theorem minMaxDates_throws_iff:
  "((\<exists>e. minMaxDates L mn mx = Inl e) \<longleftrightarrow>
      (\<exists>lo hi. parseTimeUnit L mn = Some (Instant lo) \<and> parseTimeUnit L mx = Some (Instant hi)
         \<and> hi < lo))
   \<and> ((\<exists>w. minMaxDates L mn mx = Inr w) \<longleftrightarrow>
        parseTimeUnit L mn = None \<or> parseTimeUnit L mx = None
        \<or> parseTimeUnit L mn = Some Invalid \<or> parseTimeUnit L mx = Some Invalid
        \<or> (\<exists>lo hi. parseTimeUnit L mn = Some (Instant lo)
              \<and> parseTimeUnit L mx = Some (Instant hi) \<and> lo \<le> hi))
   \<and> (parseTimeUnit L mn = None \<longleftrightarrow>
        mn = None \<or> mn = Some (Num (Fin 0)) \<or> mn = Some (Num NaN) \<or> mn = Some (Str []))
   \<and> (parseTimeUnit L mx = None \<longleftrightarrow>
        mx = None \<or> mx = Some (Num (Fin 0)) \<or> mx = Some (Num NaN) \<or> mx = Some (Str []))"
proof -
  have "(\<exists>w. minMaxDates L mn mx = Inr w) \<longleftrightarrow> \<not> (\<exists>e. minMaxDates L mn mx = Inl e)"
    by (cases "minMaxDates L mn mx") simp_all
  also have "\<dots> \<longleftrightarrow>
        parseTimeUnit L mn = None \<or> parseTimeUnit L mx = None
        \<or> parseTimeUnit L mn = Some Invalid \<or> parseTimeUnit L mx = Some Invalid
        \<or> (\<exists>lo hi. parseTimeUnit L mn = Some (Instant lo)
              \<and> parseTimeUnit L mx = Some (Instant hi) \<and> lo \<le> hi)"
  proof (cases "parseTimeUnit L mn")
    case None
    then show ?thesis by (simp add: minMaxDates_Inl)
  next
    case mn: (Some a)
    show ?thesis
    proof (cases "parseTimeUnit L mx")
      case None
      then show ?thesis by (simp add: minMaxDates_Inl)
    next
      case mx: (Some b)
      show ?thesis
        by (cases a; cases b) (auto simp: minMaxDates_Inl mn mx)
    qed
  qed
  finally show ?thesis
    using minMaxDates_Inl [of L mn mx] parseTimeUnit_None [of L mn] parseTimeUnit_None [of L mx]
    by blast
qed

theorem minMaxDates_throws_iff_witness:
  "minMaxDates still_clock (Some (Num (Fin 20))) (Some (Num (Fin 10)))
      = Inl (MinimumAfterMaximum (Instant 20) (Instant 10))
   \<and> minMaxDates still_clock (Some (Str ''2 days'')) (Some (Str ''3 Days''))
      = Inl (MinimumAfterMaximum (Instant 1599827200000) (Instant 1599740800000))
   \<and> (\<exists>w. minMaxDates still_clock (Some (Num (Fin 10))) (Some (Num (Fin 10))) = Inr w)
   \<and> (\<exists>w. minMaxDates still_clock (Some (Num (Fin 20))) None = Inr w)
   \<and> (\<exists>w. minMaxDates still_clock (Some (Num (Fin 20))) (Some (Num (Fin 0))) = Inr w)
   \<and> (\<exists>w. minMaxDates still_clock None None = Inr w)"
proof -
  have p: "parseTimeUnit still_clock (Some (Str ''2 days'')) = Some (Instant 1599827200000)"
    "parseTimeUnit still_clock (Some (Str ''3 Days'')) = Some (Instant 1599740800000)"
    by (simp_all add: parseTimeUnit_def truthy_value_def timeUnitPattern_def is_digit_def
        lower_def units_def to_number_def still_clock_def unit_millis_def)
  have n: "parseTimeUnit still_clock (Some (Num (Fin 20))) = Some (Instant 20)"
    "parseTimeUnit still_clock (Some (Num (Fin 10))) = Some (Instant 10)"
    "parseTimeUnit still_clock (Some (Num (Fin 0))) = None"
    "parseTimeUnit still_clock None = None"
    by (simp_all add: parseTimeUnit_Num parseTimeUnit_undefined timeClip_def trunc_def)
  from minMaxDates_throws_iff [of still_clock "Some (Num (Fin 20))" "Some (Num (Fin 10))"]
    minMaxDates_throws_iff [of still_clock "Some (Str ''2 days'')" "Some (Str ''3 Days'')"]
    minMaxDates_throws_iff [of still_clock "Some (Num (Fin 10))" "Some (Num (Fin 10))"]
    minMaxDates_throws_iff [of still_clock "Some (Num (Fin 20))" None]
    minMaxDates_throws_iff [of still_clock "Some (Num (Fin 20))" "Some (Num (Fin 0))"]
    minMaxDates_throws_iff [of still_clock None None]
  show ?thesis
    by (simp add: p n minMaxDates_def diff_def lt0_def)
qed


section \<open>Properties of the item counter\<close>

text \<open>What \<open>time\<close> does to the counters, test by test.\<close>

lemma time_fields:
  "snd (time L w t c) =
     c\<lparr>outOfRange := outOfRange c + (if compare L w t then 0 else 1),
       older := older c +
         (if \<exists>hi x. maxDate w = Some (Instant hi) \<and> moment_of L t = Instant x \<and> x < hi
          then 1 else 0),
       newer := newer c +
         (if \<exists>lo x. minDate w = Some (Instant lo) \<and> moment_of L t = Instant x \<and> x < lo
          then 1 else 0)\<rparr>"
  by (cases "maxDate w"; cases "minDate w")
     (auto simp: time_def Let_def gt0_diff, simp_all add: gt0_def)

lemma time_result: "fst (time L w t c) = compare L w t"
  by (simp add: time_def Let_def)

text \<open>
  C3. \<open>time\<close> is to bump \<open>newer\<close> when the lower bound is strictly earlier than the
  timestamp. With the window starting at 1000 and open above, the code bumps \<open>newer\<close>
  for the timestamp 500, which lies before the lower bound, and leaves it alone for the
  timestamp 2000, which lies after it: the test \<^verbatim>\<open>minDate.diff(value) > 0\<close> is the
  one of \<open>older\<close> with the bound exchanged, and asks for \<open>value\<close> earlier than
  \<open>minDate\<close>.
\<close>

theorem time_newer_direction:
  "minMaxDates still_clock (Some (Num (Fin 1000))) None
     = Inr \<lparr>minDate = Some (Instant 1000), maxDate = None\<rparr>
   \<and> snd (time still_clock \<lparr>minDate = Some (Instant 1000), maxDate = None\<rparr> (Num (Fin 500))
         (dateRangeItemCounter \<lparr>minDate = Some (Instant 1000), maxDate = None\<rparr>))
     = \<lparr>total_cnt = 0, older = 0, newer = 1, outOfRange = 1, empty_cnt = 0\<rparr>
   \<and> snd (time still_clock \<lparr>minDate = Some (Instant 1000), maxDate = None\<rparr> (Num (Fin 2000))
         (dateRangeItemCounter \<lparr>minDate = Some (Instant 1000), maxDate = None\<rparr>))
     = \<lparr>total_cnt = 0, older = 0, newer = 0, outOfRange = 0, empty_cnt = 0\<rparr>"
  by (simp add: minMaxDates_def parseTimeUnit_Num parseTimeUnit_undefined time_def
      compare_def diff_def dateRangeItemCounter_def moment_of_def timeClip_def trunc_def
      le0_def gt0_def)

text \<open>
  C8. No method of the counter lowers a counter, \<open>add\<close> being called with a number
  that is not negative.
\<close>

theorem counters_monotone:
  assumes "\<forall>v. k = Add v \<longrightarrow> 0 \<le> v"
  shows "total_cnt c \<le> total_cnt (snd (invoke L w k c))
       \<and> older c \<le> older (snd (invoke L w k c))
       \<and> newer c \<le> newer (snd (invoke L w k c))
       \<and> outOfRange c \<le> outOfRange (snd (invoke L w k c))
       \<and> empty_cnt c \<le> empty_cnt (snd (invoke L w k c))"
  using assms by (cases k) (simp_all add: empty_m_def add_def time_fields split_beta)

theorem counters_monotone_witness:
  "total_cnt (snd (invoke still_clock \<lparr>minDate = Some (Instant 10), maxDate = Some (Instant 20)\<rparr>
       (Add 3) \<lparr>total_cnt = 4, older = 1, newer = 0, outOfRange = 2, empty_cnt = 1\<rparr>)) = 7
   \<and> (4::int) \<le> 7
   \<and> older \<lparr>total_cnt = 4, older = 1, newer = 0, outOfRange = 2, empty_cnt = 1\<rparr>
       \<le> older (snd (invoke still_clock \<lparr>minDate = Some (Instant 10), maxDate = Some (Instant 20)\<rparr>
            (Time (Num (Fin 5)))
            \<lparr>total_cnt = 4, older = 1, newer = 0, outOfRange = 2, empty_cnt = 1\<rparr>))"
  using counters_monotone [of "Add 3"
        "\<lparr>total_cnt = 4, older = 1, newer = 0, outOfRange = 2, empty_cnt = 1\<rparr>" still_clock
        "\<lparr>minDate = Some (Instant 10), maxDate = Some (Instant 20)\<rparr>"]
    counters_monotone [of "Time (Num (Fin 5))"
        "\<lparr>total_cnt = 4, older = 1, newer = 0, outOfRange = 2, empty_cnt = 1\<rparr>" still_clock
        "\<lparr>minDate = Some (Instant 10), maxDate = Some (Instant 20)\<rparr>"]
  by (simp add: add_def)

text \<open>
  The four counters that only ever go up by one stay at or above zero, whatever
  is passed to \<open>add\<close>.
\<close>

lemma invoke_nonneg:
  assumes "0 \<le> older c \<and> 0 \<le> newer c \<and> 0 \<le> outOfRange c \<and> 0 \<le> empty_cnt c"
  shows "0 \<le> older (snd (invoke L w k c)) \<and> 0 \<le> newer (snd (invoke L w k c))
       \<and> 0 \<le> outOfRange (snd (invoke L w k c)) \<and> 0 \<le> empty_cnt (snd (invoke L w k c))"
  using assms by (cases k) (simp_all add: empty_m_def add_def time_fields split_beta)

lemma invoke_all_nonneg:
  assumes "0 \<le> older c \<and> 0 \<le> newer c \<and> 0 \<le> outOfRange c \<and> 0 \<le> empty_cnt c"
  shows "0 \<le> older (invoke_all L w ks c) \<and> 0 \<le> newer (invoke_all L w ks c)
       \<and> 0 \<le> outOfRange (invoke_all L w ks c) \<and> 0 \<le> empty_cnt (invoke_all L w ks c)"
  using assms
proof (induction ks arbitrary: c)
  case Nil
  then show ?case by simp
next
  case (Cons k ks)
  from invoke_nonneg [OF Cons.prems] show ?case
    by (simp add: Cons.IH)
qed

lemma reachable_nonneg:
  "0 \<le> older (invoke_all L w ks (dateRangeItemCounter w)) \<and>
   0 \<le> empty_cnt (invoke_all L w ks (dateRangeItemCounter w))"
  using invoke_all_nonneg [of "dateRangeItemCounter w" L w ks]
  by (simp add: dateRangeItemCounter_def)

lemma isOver_iff:
  assumes "0 \<le> older c" "0 \<le> empty_cnt c"
  shows "isOver c \<longleftrightarrow>
     (outOfRange c > 0 \<and> total_cnt c > 0 \<and> ratio (older c) (total_cnt c) > 7 / 10)
   \<or> (total_cnt c > 0 \<and> ratio (empty_cnt c) (total_cnt c) > 2 / 10)"
proof -
  have q: "\<not> ratio a b > r" if "0 \<le> a" "b \<le> 0" "0 < r" for a b r
  proof -
    have "ratio a b \<le> 0"
      using that by (simp add: ratio_def divide_nonneg_nonpos)
    with that show ?thesis by simp
  qed
  have z: "\<not> ratio 0 b > r" if "0 < r" for b r
    using that by (simp add: ratio_def)
  show ?thesis
  proof (cases "0 < total_cnt c")
    case True
    then show ?thesis
      using z [of "7 / 10" "total_cnt c"] z [of "2 / 10" "total_cnt c"]
      by (auto simp: isOver_def truthy_def)
  next
    case False
    then show ?thesis
      using q [OF assms(1), of "total_cnt c" "7 / 10"] q [OF assms(2), of "total_cnt c" "2 / 10"]
      by (auto simp: isOver_def truthy_def)
  qed
qed

lemma quiet_unchanged:
  "\<forall>k \<in> set ks. \<not> recording k \<Longrightarrow> invoke_all L w ks c = c"
proof (induction ks)
  case Nil
  then show ?case by simp
next
  case (Cons k ks)
  then show ?case by (cases k) simp_all
qed

text \<open>
  C2. In every state \<open>c\<close> that calls on a fresh counter lead to, \<open>isOver\<close> answers true
  exactly when (\<open>outOfRange > 0\<close> and \<open>total > 0\<close> and \<open>older / total > 0.7\<close>) or
  (\<open>total > 0\<close> and \<open>empty / total > 0.2\<close>). The call leaves the counters as they are,
  so once it has answered true it answers true again after any calls that record
  nothing.
\<close>

theorem isOver_stagnation:
  assumes "c = invoke_all L w ks (dateRangeItemCounter w)"
  shows "fst (invoke L w IsOver c) =
           Flag ((outOfRange c > 0 \<and> total_cnt c > 0
                    \<and> (of_int (older c) / of_int (total_cnt c) :: rat) > 7 / 10)
                 \<or> (total_cnt c > 0
                    \<and> (of_int (empty_cnt c) / of_int (total_cnt c) :: rat) > 2 / 10))
       \<and> snd (invoke L w IsOver c) = c
       \<and> (\<forall>qs. (\<forall>q \<in> set qs. \<not> recording q) \<longrightarrow> fst (invoke L w IsOver c) = Flag True
              \<longrightarrow> fst (invoke L w IsOver (invoke_all L w qs c)) = Flag True)"
proof -
  have "0 \<le> older c" "0 \<le> empty_cnt c"
    using reachable_nonneg [of L w ks] assms by simp_all
  then have "isOver c \<longleftrightarrow>
     (outOfRange c > 0 \<and> total_cnt c > 0 \<and> ratio (older c) (total_cnt c) > 7 / 10)
   \<or> (total_cnt c > 0 \<and> ratio (empty_cnt c) (total_cnt c) > 2 / 10)"
    by (rule isOver_iff)
  then show ?thesis
    by (simp add: ratio_def quiet_unchanged)
qed

theorem isOver_stagnation_witness:
  "fst (invoke still_clock \<lparr>minDate = None, maxDate = Some (Instant 100)\<rparr> IsOver
     (invoke_all still_clock \<lparr>minDate = None, maxDate = Some (Instant 100)\<rparr>
        [Add 10, Time (Num (Fin 200)), Time (Num (Fin 50)), Time (Num (Fin 50)),
         Time (Num (Fin 50)), Time (Num (Fin 50)), Time (Num (Fin 50)), Time (Num (Fin 50)),
         Time (Num (Fin 50)), Time (Num (Fin 50))]
        (dateRangeItemCounter \<lparr>minDate = None, maxDate = Some (Instant 100)\<rparr>))) = Flag True
   \<and> fst (invoke still_clock \<lparr>minDate = None, maxDate = Some (Instant 100)\<rparr> IsOver
       (invoke_all still_clock \<lparr>minDate = None, maxDate = Some (Instant 100)\<rparr> [IsOver, Stats]
         (invoke_all still_clock \<lparr>minDate = None, maxDate = Some (Instant 100)\<rparr>
        [Add 10, Time (Num (Fin 200)), Time (Num (Fin 50)), Time (Num (Fin 50)),
         Time (Num (Fin 50)), Time (Num (Fin 50)), Time (Num (Fin 50)), Time (Num (Fin 50)),
         Time (Num (Fin 50)), Time (Num (Fin 50))]
        (dateRangeItemCounter \<lparr>minDate = None, maxDate = Some (Instant 100)\<rparr>)))) = Flag True"
  using isOver_stagnation [OF refl, of still_clock "\<lparr>minDate = None, maxDate = Some (Instant 100)\<rparr>"
     "[Add 10, Time (Num (Fin 200)), Time (Num (Fin 50)), Time (Num (Fin 50)),
         Time (Num (Fin 50)), Time (Num (Fin 50)), Time (Num (Fin 50)), Time (Num (Fin 50)),
         Time (Num (Fin 50)), Time (Num (Fin 50))]"]
  by (simp add: dateRangeItemCounter_def time_def compare_def diff_def add_def Let_def
      moment_of_def timeClip_def trunc_def ge0_def gt0_def)


section \<open>Properties of the deferred promise\<close>

lemma settle_settled:
  "resolved (settle k d) \<and> promise (settle k d) \<noteq> Pending"
  by (cases k; cases "promise d") (simp_all add: resolve_def reject_def r1_def r2_def)

lemma settle_again:
  "resolved d \<Longrightarrow> promise d \<noteq> Pending \<Longrightarrow> settle k d = d"
  by (cases k; cases "promise d") (simp_all add: resolve_def reject_def r1_def r2_def)

lemma settle_all_again:
  "resolved d \<Longrightarrow> promise d \<noteq> Pending \<Longrightarrow> settle_all ks d = d"
  by (induction ks) (simp_all add: settle_again)

lemma settle_all_settled:
  "ks \<noteq> [] \<Longrightarrow> resolved (settle_all ks d) \<and> promise (settle_all ks d) \<noteq> Pending"
proof (cases ks)
  case Nil
  assume "ks \<noteq> []"
  with Nil show ?thesis by simp
next
  case (Cons k ks')
  have "settle_all ks' (settle k d) = settle k d"
    using settle_settled [of k d] by (simp add: settle_all_again)
  with Cons show ?thesis
    using settle_settled [of k d] by simp
qed

text \<open>
  C7. Once \<open>resolve\<close> or \<open>reject\<close> has been called on a deferred object, a further call
  of either changes nothing: the fate of the promise is the one the first call fixed, and
  \<open>resolved\<close> stays true.
\<close>

theorem settled_calls_are_noops:
  assumes "ks \<noteq> []" and "d = settle_all ks (deferred :: ('a, 'e) deferred_obj)"
  shows "promise (resolve a d) = promise d \<and> resolved (resolve a d)
       \<and> promise (reject e d) = promise d \<and> resolved (reject e d)
       \<and> promise (settle_all later d) = promise d \<and> resolved (settle_all later d)
       \<and> promise d \<noteq> Pending"
proof -
  have inv: "resolved d" "promise d \<noteq> Pending"
    using settle_all_settled [OF assms(1), of deferred] assms(2) by simp_all
  have "settle (Resolve a) d = d" "settle (Reject e) d = d" "settle_all later d = d"
    using inv by (rule settle_again, rule settle_again, rule settle_all_again)
  with inv show ?thesis
    by (metis settle.simps)
qed

theorem settled_calls_are_noops_witness:
  "promise (resolve (2::nat) (settle_all [Resolve 1] (deferred :: (nat, string) deferred_obj)))
      = ResolvedWith 1
   \<and> promise (reject ''late'' (settle_all [Resolve 1] (deferred :: (nat, string) deferred_obj)))
      = ResolvedWith 1
   \<and> promise (resolve (2::nat) (settle_all [Reject ''gone''] (deferred :: (nat, string) deferred_obj)))
      = RejectedWith ''gone''
   \<and> resolved (reject ''late'' (settle_all [Resolve 1] (deferred :: (nat, string) deferred_obj)))"
  using settled_calls_are_noops [OF _ refl, of "[Resolve (1::nat)]" 2 "''late''" "[]"]
    settled_calls_are_noops [OF _ refl, of "[Reject ''gone'' :: (nat, string) settlement]" 2 "''late''" "[]"]
  by (simp add: deferred_def resolve_def reject_def r1_def r2_def)

text \<open>
  C9. \<open>resolved\<close> is false on a fresh deferred object and true after a call of
  \<open>resolve\<close> as well as after a call of \<open>reject\<close>: it says that the object was
  settled, in either direction.
\<close>

theorem resolved_reports_any_settlement:
  "\<not> resolved (deferred :: ('a, 'e) deferred_obj)
   \<and> resolved (resolve a (d :: ('a, 'e) deferred_obj))
   \<and> resolved (reject e d)
   \<and> (resolved (settle_all ks (deferred :: ('a, 'e) deferred_obj)) \<longleftrightarrow> ks \<noteq> [])"
proof -
  have "resolved (settle_all ks (deferred :: ('a, 'e) deferred_obj)) \<longleftrightarrow> ks \<noteq> []"
  proof (cases "ks = []")
    case True
    then show ?thesis by (simp add: deferred_def)
  next
    case False
    then show ?thesis using settle_all_settled [of ks deferred] by simp
  qed
  then show ?thesis
    by (simp add: deferred_def resolve_def reject_def)
qed

theorem resolved_reports_any_settlement_witness:
  "\<not> resolved (deferred :: (nat, string) deferred_obj)
   \<and> resolved (reject ''boom'' (deferred :: (nat, string) deferred_obj))
   \<and> promise (reject ''boom'' (deferred :: (nat, string) deferred_obj)) = RejectedWith ''boom''
   \<and> resolved (resolve 7 (deferred :: (nat, string) deferred_obj))"
  using resolved_reports_any_settlement [of "7::nat" "deferred :: (nat, string) deferred_obj" "''boom''" "[]"]
  by (simp add: deferred_def reject_def r2_def)


section \<open>Properties of the scrolling loop\<close>

lemma set_set_add: "set (set_add v h) = insert v (set h)"
  by (auto simp: set_add_def)

lemma isChanging_Some: "isChanging h (Some n) \<longleftrightarrow> n \<notin> set h"
  by (auto simp: isChanging_def list_all_iff)

text \<open>Zero is never a member of a histogram: only truthy samples are added.\<close>

lemma sample_zero_free: "0 \<notin> set h \<Longrightarrow> 0 \<notin> set (snd (sample h num))"
  by (cases num) (simp_all add: sample_def truthy_def set_set_add)

lemma shouldContinue_histograms:
  "scrolls (snd (shouldContinue opts p a b s)) = scrolls s
   \<and> heights (snd (shouldContinue opts p a b s)) = heights s"
  by (simp add: shouldContinue_def Let_def)

lemma loop_pass_histograms:
  assumes "scrolled opts p"
  shows "scrolls (snd (loop_pass opts p s)) = snd (sample (scrolls s) (lastScroll p))
       \<and> heights (snd (loop_pass opts p s)) = snd (sample (heights s) (bodyHeight p))"
proof -
  obtain a sc where sc: "sample (scrolls s) (lastScroll p) = (a, sc)" by force
  obtain b hs where hs: "sample (heights s) (bodyHeight p) = (b, hs)" by force
  show ?thesis
    using assms sc hs shouldContinue_histograms [of opts p a b "s\<lparr>scrolls := sc, heights := hs\<rparr>"]
    by (simp add: loop_pass_def split_beta Let_def)
qed

lemma loop_pass_zero_free:
  assumes "0 \<notin> set (scrolls s) \<and> 0 \<notin> set (heights s)"
  shows "0 \<notin> set (scrolls (snd (loop_pass opts p s))) \<and> 0 \<notin> set (heights (snd (loop_pass opts p s)))"
proof (cases "scrolled opts p")
  case False
  with assms show ?thesis by (simp add: loop_pass_def)
next
  case True
  then show ?thesis
    using loop_pass_histograms [of opts p s] assms
      sample_zero_free [of "scrolls s" "lastScroll p"] sample_zero_free [of "heights s" "bodyHeight p"]
    by simp
qed

lemma while_true_zero_free:
  "0 \<notin> set (scrolls s) \<and> 0 \<notin> set (heights s) \<Longrightarrow>
   0 \<notin> set (scrolls (vars (while_true opts ps s))) \<and> 0 \<notin> set (heights (vars (while_true opts ps s)))"
proof (induction ps arbitrary: s)
  case Nil
  then show ?case by simp
next
  case (Cons p ps)
  obtain brk s' where step: "loop_pass opts p s = (brk, s')" by force
  have zf: "0 \<notin> set (scrolls s') \<and> 0 \<notin> set (heights s')"
    using loop_pass_zero_free [OF Cons.prems, of opts p] step by simp
  show ?case
  proof (cases brk)
    case True
    with step zf show ?thesis by simp
  next
    case False
    with step Cons.IH [OF zf] show ?thesis by simp
  qed
qed

lemma idle_pass: "\<not> scrolled opts p \<Longrightarrow> loop_pass opts p s = (False, s)"
  by (simp add: loop_pass_def)

lemma idle_passes: "\<forall>p \<in> set ps. \<not> scrolled opts p \<Longrightarrow> while_true opts ps s = Running s"
  by (induction ps) (simp_all add: idle_pass)

text \<open>
  C4, as stated, fails for a sample of zero. On the first pass, with both samples 0,
  \<open>isChanging\<close> answers true for each (no member of the histogram equals 0), and
  \<open>maybeStop\<close> is called with \<open>scrollChanged\<close> and \<open>bodyChanged\<close> both true.
\<close>

theorem zero_sample_is_changed:
  "isChanging (scrolls start) (Some 0)
   \<and> stopCalls (snd (loop_pass \<lparr>selectors = [], maybeStop_given = True, doScroll_given = False\<rparr>
        \<lparr>doScroll = True, lastScroll = Some 0, bodyHeight = Some 0,
          foundSelectors = False, maybeStop = False\<rparr> start))
      = [\<lparr>stop_param.count = 0, scrollChanged = True, bodyChanged = True,
           scrollSize = 0, heightSize = 0\<rparr>]"
  by (simp add: start_def isChanging_def loop_pass_def scrolled_def sample_def truthy_def
      shouldContinue_def)

text \<open>
  C4, amended. On every pass of the loop that scrolls, each histogram becomes what
  \<open>sample\<close> returns for it, and: a sample of \<open>null\<close> is not inserted and is not
  classified as changed; a sample of zero is not inserted and is classified as changed
  (zero is never a member); any other sample is classified as changed exactly when it is
  not a member at the time of the test, and is a member afterwards.
\<close>

theorem sample_policy:
  assumes "scrollUntil opts ps = Running s" and "scrolled opts p"
    and "s' = snd (loop_pass opts p s)"
    and "(h, v, h') = (scrolls s, lastScroll p, scrolls s')
       \<or> (h, v, h') = (heights s, bodyHeight p, heights s')"
  shows "h' = snd (sample h v)
       \<and> (v = None \<longrightarrow> sample h v = (False, h))
       \<and> (v = Some 0 \<longrightarrow> sample h v = (True, h))
       \<and> (\<forall>n. v = Some n \<and> n \<noteq> 0 \<longrightarrow>
             sample h v = (n \<notin> set h, set_add n h) \<and> n \<in> set h')"
proof -
  have "0 \<notin> set (scrolls s) \<and> 0 \<notin> set (heights s)"
    using while_true_zero_free [of start opts ps] assms(1)
    by (simp add: scrollUntil_def start_def)
  with assms(4) have zero: "0 \<notin> set h" by auto
  have next_h: "h' = snd (sample h v)"
    using loop_pass_histograms [OF assms(2), of s] assms(3,4) by auto
  have "sample h None = (False, h)"
    by (simp add: sample_def isChanging_def)
  moreover have "sample h (Some 0) = (True, h)"
    using zero by (simp add: sample_def truthy_def isChanging_Some)
  moreover have "sample h (Some n) = (n \<notin> set h, set_add n h)" if "n \<noteq> 0" for n
    using that by (simp add: sample_def truthy_def isChanging_Some)
  ultimately show ?thesis
    using next_h by (auto simp: set_set_add)
qed

theorem sample_policy_witness:
  "scrollUntil \<lparr>selectors = [], maybeStop_given = False, doScroll_given = False\<rparr>
     [\<lparr>doScroll = True, lastScroll = Some 5, bodyHeight = None,
        foundSelectors = False, maybeStop = False\<rparr>]
     = Running \<lparr>scrolls = [5], heights = [], count = 1, selectorChecks = 0, stopCalls = []\<rparr>
   \<and> scrolls (snd (loop_pass \<lparr>selectors = [], maybeStop_given = False, doScroll_given = False\<rparr>
        \<lparr>doScroll = True, lastScroll = Some 9, bodyHeight = Some 0,
          foundSelectors = False, maybeStop = False\<rparr>
        \<lparr>scrolls = [5], heights = [], count = 1, selectorChecks = 0, stopCalls = []\<rparr>)) = [5, 9]
   \<and> sample [5] (Some 9) = (True, [5, 9])
   \<and> heights (snd (loop_pass \<lparr>selectors = [], maybeStop_given = False, doScroll_given = False\<rparr>
        \<lparr>doScroll = True, lastScroll = Some 9, bodyHeight = Some 0,
          foundSelectors = False, maybeStop = False\<rparr>
        \<lparr>scrolls = [5], heights = [], count = 1, selectorChecks = 0, stopCalls = []\<rparr>)) = []
   \<and> sample [] (Some 0) = (True, [])"
proof -
  let ?opts = "\<lparr>selectors = [], maybeStop_given = False, doScroll_given = False\<rparr>"
  let ?p1 = "\<lparr>doScroll = True, lastScroll = Some 5, bodyHeight = None,
        foundSelectors = False, maybeStop = False\<rparr>"
  let ?p2 = "\<lparr>doScroll = True, lastScroll = Some 9, bodyHeight = Some 0,
          foundSelectors = False, maybeStop = False\<rparr>"
  let ?s = "\<lparr>scrolls = [5], heights = [], count = 1, selectorChecks = 0, stopCalls = []\<rparr>"
  have run: "scrollUntil ?opts [?p1] = Running ?s"
    by (simp add: scrollUntil_def start_def loop_pass_def scrolled_def sample_def truthy_def
        isChanging_def set_add_def shouldContinue_def)
  have sc: "scrolled ?opts ?p2"
    by (simp add: scrolled_def)
  from sample_policy [OF run sc refl, of "scrolls ?s" "lastScroll ?p2" _]
    sample_policy [OF run sc refl, of "heights ?s" "bodyHeight ?p2" _] run
  show ?thesis
    by (simp add: set_add_def)
qed

text \<open>
  C10. A pass on which \<open>doScroll\<close> answers false leaves every variable as it was and
  asks nothing: no look for the selectors, no call of \<open>maybeStop\<close>. When \<open>doScroll\<close>
  answers false on every pass, the loop is still running after any number of passes,
  with the counter at 0 and nothing asked.
\<close>

theorem stop_checks_need_scroll:
  "(\<not> scrolled opts p \<longrightarrow> loop_pass opts p s = (False, s))
   \<and> ((\<forall>q \<in> set ps. \<not> scrolled opts q) \<longrightarrow>
         scrollUntil opts ps = Running start
         \<and> selectorChecks (vars (scrollUntil opts ps)) = 0
         \<and> stopCalls (vars (scrollUntil opts ps)) = []
         \<and> count (vars (scrollUntil opts ps)) = 0)"
  by (simp add: idle_pass idle_passes scrollUntil_def) (simp add: start_def)

theorem stop_checks_need_scroll_witness:
  "scrollUntil \<lparr>selectors = [''article''], maybeStop_given = True, doScroll_given = True\<rparr>
     [\<lparr>doScroll = False, lastScroll = Some 120, bodyHeight = Some 900,
        foundSelectors = True, maybeStop = True\<rparr>,
      \<lparr>doScroll = False, lastScroll = Some 240, bodyHeight = Some 900,
        foundSelectors = True, maybeStop = True\<rparr>]
   = Running \<lparr>scrolls = [], heights = [], count = 0, selectorChecks = 0, stopCalls = []\<rparr>"
  using stop_checks_need_scroll [of
     "\<lparr>selectors = [''article''], maybeStop_given = True, doScroll_given = True\<rparr>"
     "\<lparr>doScroll = False, lastScroll = Some 120, bodyHeight = Some 900,
        foundSelectors = True, maybeStop = True\<rparr>" start
     "[\<lparr>doScroll = False, lastScroll = Some 120, bodyHeight = Some 900,
        foundSelectors = True, maybeStop = True\<rparr>,
      \<lparr>doScroll = False, lastScroll = Some 240, bodyHeight = Some 900,
        foundSelectors = True, maybeStop = True\<rparr>]"]
  by (simp add: scrolled_def start_def)

end
